theory Spec2Isabelle
  imports Main
begin

section \<open>Python values\<close>

text \<open>
  The program of \<^verbatim>\<open>get-photo.py\<close> works on what \<^verbatim>\<open>json.load\<close> returns and on
  dictionaries it builds itself: \<^verbatim>\<open>None\<close>, booleans, integers, strings, lists and
  dictionaries with string keys. A dictionary is an association list in insertion
  order, as a Python \<^verbatim>\<open>dict\<close> is: assigning to an existing key keeps its place, a new
  key goes to the end. Non-integer numbers do not occur in what the program writes and
  are left out.
\<close>

datatype json =
    JNull
  | JBool bool
  | JInt int
  | JStr string
  | JArr "json list"
  | JObj "(string \<times> json) list"

type_synonym dict = "(string \<times> json) list"

datatype error =
    IOError
  | ValueError
  | TypeError
  | KeyError
  | AttributeError
  | IndexError
  | RequestException

text \<open>Truth value of a Python object, as \<^verbatim>\<open>if x:\<close> tests it.\<close>

fun truthy :: "json \<Rightarrow> bool" where
  "truthy JNull = False"
| "truthy (JBool b) = b"
| "truthy (JInt i) = (i \<noteq> 0)"
| "truthy (JStr s) = (s \<noteq> [])"
| "truthy (JArr xs) = (xs \<noteq> [])"
| "truthy (JObj d) = (d \<noteq> [])"

text \<open>\<^verbatim>\<open>d[k] = v\<close>, \<^verbatim>\<open>d.pop(k, None)\<close>, \<^verbatim>\<open>d.get(k, default)\<close> and \<^verbatim>\<open>k in d\<close> on a dictionary.\<close>

fun dict_set :: "string \<Rightarrow> json \<Rightarrow> dict \<Rightarrow> dict" where
  "dict_set k v [] = [(k, v)]"
| "dict_set k v (p # d) = (if fst p = k then (k, v) # d else p # dict_set k v d)"

definition dict_pop :: "string \<Rightarrow> dict \<Rightarrow> dict" where
  "dict_pop k d = filter (\<lambda>p. fst p \<noteq> k) d"

definition dict_get :: "dict \<Rightarrow> string \<Rightarrow> json \<Rightarrow> json" where
  "dict_get d k dflt = (case map_of d k of None \<Rightarrow> dflt | Some v \<Rightarrow> v)"

definition has_key :: "string \<Rightarrow> dict \<Rightarrow> bool" where
  "has_key k d = (map_of d k \<noteq> None)"

text \<open>
  \<^verbatim>\<open>x[k]\<close> with a string key \<open>k\<close>: \<^verbatim>\<open>KeyError\<close> on a dictionary without the key,
  \<^verbatim>\<open>TypeError\<close> on everything that is not a dictionary.
\<close>

fun py_getitem :: "json \<Rightarrow> string \<Rightarrow> error + json" where
  "py_getitem (JObj d) k = (case map_of d k of None \<Rightarrow> Inl KeyError | Some v \<Rightarrow> Inr v)"
| "py_getitem _ k = Inl TypeError"

text \<open>\<^verbatim>\<open>x[k] = v\<close> with a string key: only a dictionary accepts it.\<close>

fun py_setitem :: "json \<Rightarrow> string \<Rightarrow> json \<Rightarrow> error + json" where
  "py_setitem (JObj d) k v = Inr (JObj (dict_set k v d))"
| "py_setitem _ k v = Inl TypeError"

text \<open>\<^verbatim>\<open>for x in v\<close>: a list gives its elements, a dictionary its keys, a string its characters.\<close>

fun py_iter :: "json \<Rightarrow> error + json list" where
  "py_iter (JArr xs) = Inr xs"
| "py_iter (JObj d) = Inr (map (\<lambda>p. JStr (fst p)) d)"
| "py_iter (JStr s) = Inr (map (\<lambda>c. JStr [c]) s)"
| "py_iter _ = Inl TypeError"

text \<open>\<^verbatim>\<open>a + b\<close> where \<open>b\<close> is a string: any other left operand raises \<^verbatim>\<open>TypeError\<close>.\<close>

fun py_concat :: "json \<Rightarrow> string \<Rightarrow> error + string" where
  "py_concat (JStr s) t = Inr (s @ t)"
| "py_concat _ t = Inl TypeError"

fun starts_with :: "string \<Rightarrow> string \<Rightarrow> bool" where
  "starts_with [] s = True"
| "starts_with (c # cs) [] = False"
| "starts_with (c # cs) (d # ds) = (c = d \<and> starts_with cs ds)"

fun substring :: "string \<Rightarrow> string \<Rightarrow> bool" where
  "substring p [] = (p = [])"
| "substring p (c # cs) = (starts_with p (c # cs) \<or> substring p cs)"

section \<open>The outside world\<close>

text \<open>
  An HTTP response as the program reads it: the status code, the headers, the body, and
  what \<^verbatim>\<open>json.loads(r.content.decode("utf-8"))\<close> gives for it (\<open>None\<close> when that
  raises \<^verbatim>\<open>ValueError\<close>). The headers of \<^verbatim>\<open>requests\<close> ignore the case of a name;
  here a header is stored under the spelling the program asks for.
\<close>

record response =
  status_code :: int
  headers :: "(string \<times> string) list"
  content :: string
  content_json :: "json option"

text \<open>
  The collaborators the program calls and does not define: the network (one reply, or an
  exception, per request), the two fingerprints (\<^verbatim>\<open>hashlib.sha1\<close> of a file's bytes and
  of \<^verbatim>\<open>json.dumps\<close> of a value), the \<^verbatim>\<open>mimetypes\<close> tables, the order in which a Python
  set of strings is iterated, and the index \<^verbatim>\<open>random.choice\<close> draws.
\<close>

record env =
  http_get :: "json \<Rightarrow> error + response"
  http_post :: "string option \<Rightarrow> json \<Rightarrow> error + response"
  sha1 :: "string \<Rightarrow> string"
  sha1_dict :: "json \<Rightarrow> string"
  guess_type :: "string \<Rightarrow> string option"
  guess_extension :: "string \<Rightarrow> string option"
  set_order :: "string list \<Rightarrow> string list"
  random_index :: nat

text \<open>The content of the manifest file: absent, not JSON, or JSON.\<close>

datatype mfile = Missing | Garbage | Parsed json

datatype event =
    NetGet json
  | NetPost json
  | WriteManifest json
  | WriteUrls string
  | MakeDirs string
  | WriteFile string string

text \<open>
  The state outside the process: the source URL list file (its text, \<open>None\<close> when the
  file cannot be read), the manifest file, what \<^verbatim>\<open>glob(cache-prefix + "/*")\<close> lists,
  whether the directory \<^verbatim>\<open>cache\<close> exists, the files written there, every network
  request and file write in the order they happened, and what was printed. The text of
  the URL list file is text the file system encoding decodes, and opening a file for
  writing succeeds. A call that raises leaves no world behind: the exception is all the
  caller of \<^verbatim>\<open>respond\<close> gets.
\<close>

record world =
  urls_file :: "string option"
  manifest_file :: mfile
  cache_listing :: "string list"
  cache_dir :: bool
  cache_files :: "(string \<times> string) list"
  events :: "event list"
  printed :: "(string \<times> json) list"

record config =
  cache_prefix :: string
  api_key :: "string option"

definition emit :: "event \<Rightarrow> world \<Rightarrow> world" where
  "emit ev w = w\<lparr>events := events w @ [ev]\<rparr>"

section \<open>Files and responses\<close>

text \<open>
  \<^verbatim>\<open>get_json\<close>: \<^verbatim>\<open>IOError\<close> for a missing file, \<^verbatim>\<open>ValueError\<close> for one that is not
  JSON. This is \<^verbatim>\<open>json.load\<close> as it is up to Python 3.8, where it accepts the
  \<^verbatim>\<open>encoding\<close> argument the program passes.
\<close>

fun get_json :: "mfile \<Rightarrow> error + json" where
  "get_json Missing = Inl IOError"
| "get_json Garbage = Inl ValueError"
| "get_json (Parsed j) = Inr j"

text \<open>\<^verbatim>\<open>give_response\<close> prints the headers and \<^verbatim>\<open>{"status": status, "data": data}\<close>.\<close>

definition give_response :: "json \<Rightarrow> string \<Rightarrow> world \<Rightarrow> world" where
  "give_response data status w = w\<lparr>printed := printed w @ [(status, data)]\<rparr>"

text \<open>\<^verbatim>\<open>os.path.basename\<close> and \<^verbatim>\<open>os.path.join\<close> of \<^verbatim>\<open>posixpath\<close>.\<close>

definition basename :: "string \<Rightarrow> string" where
  "basename p = rev (takeWhile (\<lambda>c. c \<noteq> CHR ''/'') (rev p))"

definition path_join :: "string \<Rightarrow> string \<Rightarrow> string" where
  "path_join a b =
     (if starts_with ''/'' b then b
      else if a = [] \<or> last a = CHR ''/'' then a @ b
      else a @ ''/'' @ b)"

section \<open>The compressor\<close>

text \<open>
  \<^verbatim>\<open>generate_cached_image(cache_prefix, auth)\<close> returns the function \<^verbatim>\<open>wrapped\<close>; the
  model is that function, with the two captured values as its first arguments. The
  record is mutated in place and returned, so the model returns the new record.
  \<^verbatim>\<open>r.status_code is not requests.codes.created\<close> compares an integer with 201 by
  identity, which for CPython's small integers is inequality.
\<close>

definition bind :: "error + 'a \<Rightarrow> ('a \<Rightarrow> error + 'b) \<Rightarrow> error + 'b" where
  "bind m f = (case m of Inl x \<Rightarrow> Inl x | Inr a \<Rightarrow> f a)"

text \<open>\<^verbatim>\<open>r.headers[k]\<close> and \<^verbatim>\<open>json.loads(r.content.decode("utf-8"))\<close>.\<close>

definition header :: "response \<Rightarrow> string \<Rightarrow> error + string" where
  "header r k = (case map_of (headers r) k of None \<Rightarrow> Inl KeyError | Some v \<Rightarrow> Inr v)"

definition json_loads :: "response \<Rightarrow> error + json" where
  "json_loads r = (case content_json r of None \<Rightarrow> Inl ValueError | Some j \<Rightarrow> Inr j)"

text \<open>\<^verbatim>\<open>os.path.basename(url)\<close> takes a string only.\<close>

fun py_basename :: "json \<Rightarrow> error + string" where
  "py_basename (JStr s) = Inr (basename s)"
| "py_basename _ = Inl TypeError"

text \<open>
  \<^verbatim>\<open>fn + mimetypes.guess_extension(mime_type)\<close>: the lookup calls \<^verbatim>\<open>mime_type.lower()\<close>,
  so it raises \<^verbatim>\<open>AttributeError\<close> on anything but a string, and the sum raises
  \<^verbatim>\<open>TypeError\<close> when the type is unknown and the lookup returns \<^verbatim>\<open>None\<close>.
\<close>

fun with_extension :: "env \<Rightarrow> string \<Rightarrow> json \<Rightarrow> error + string" where
  "with_extension e fn (JStr mt) =
     (case guess_extension e mt of None \<Rightarrow> Inl TypeError | Some ext \<Rightarrow> Inr (fn @ ext))"
| "with_extension e fn _ = Inl AttributeError"

text \<open>\<^verbatim>\<open>if not os.path.exists("cache"): os.makedirs("cache")\<close>\<close>

definition ensure_cache_dir :: "world \<Rightarrow> world" where
  "ensure_cache_dir w =
     (if cache_dir w then w else emit (MakeDirs ''cache'') (w\<lparr>cache_dir := True\<rparr>))"

text \<open>\<^verbatim>\<open>with open(new_url, 'wb') as f: f.write(r.content)\<close>\<close>

definition write_cache_file :: "string \<Rightarrow> string \<Rightarrow> world \<Rightarrow> world" where
  "write_cache_file path bytes w =
     emit (WriteFile path bytes) (w\<lparr>cache_files := (path, bytes) # cache_files w\<rparr>)"

definition generate_cached_image ::
  "string \<Rightarrow> string option \<Rightarrow> env \<Rightarrow> world \<Rightarrow> json \<Rightarrow> error + (world \<times> json)" where
  "generate_cached_image prefix auth e w img =
     (case img of
        JObj d \<Rightarrow>
          if truthy (dict_get d ''cached'' (JBool False)) then Inr (w, img)
          else
            bind (py_getitem img ''url'') (\<lambda>u.
            bind (http_post e auth u) (\<lambda>r.
              let w1 = emit (NetPost u) w;
                  d1 = dict_set ''original_url'' u d
              in
            bind (header r ''Date'') (\<lambda>date.
              let d2 = dict_set ''last_cached'' (JStr date) d1 in
              if status_code r \<noteq> 201
              then Inr (w1, JObj (dict_set ''error'' (JInt (status_code r)) d2))
              else
                let d3 = dict_pop ''error'' d2 in
            bind (json_loads r) (\<lambda>resp.
            bind (py_getitem resp ''output'') (\<lambda>out.
            bind (py_getitem out ''url'') (\<lambda>url.
            bind (py_getitem out ''type'') (\<lambda>mime_type.
            bind (http_get e url) (\<lambda>r2.
              let w2 = emit (NetGet url) w1 in
            bind (py_basename url) (\<lambda>fn.
              let w3 = ensure_cache_dir w2 in
            bind (with_extension e fn mime_type) (\<lambda>name.
              let new_url = path_join ''cache'' name;
                  w4 = write_cache_file new_url (content r2) w3;
                  d4 = dict_set ''url'' (JStr (prefix @ new_url)) d3;
                  d5 = dict_set ''cached'' (JBool True) d4
              in Inr (w4, JObj d5)))))))))))
      | _ \<Rightarrow> Inl AttributeError)"

section \<open>The fingerprint-gated rebuild\<close>

text \<open>
  \<^verbatim>\<open>Chooser.fetch\<close>. The test \<^verbatim>\<open>'cached' in img and img['cached']\<close> and the subscript
  \<^verbatim>\<open>img['url']\<close> that follows raise \<^verbatim>\<open>TypeError\<close> between them on every value that
  is not a dictionary. \<^verbatim>\<open>r.status_code is not requests.codes.ok\<close> is inequality with 200.
\<close>

definition fetch :: "env \<Rightarrow> world \<Rightarrow> json \<Rightarrow> error + (world \<times> json)" where
  "fetch e w img =
     (case img of
        JObj d \<Rightarrow>
          if (case map_of d ''cached'' of None \<Rightarrow> False | Some c \<Rightarrow> truthy c) then Inr (w, img)
          else
            bind (py_getitem img ''url'') (\<lambda>u.
            bind (http_get e u) (\<lambda>r.
              let w1 = emit (NetGet u) w in
              if status_code r \<noteq> 200
              then Inr (w1, JObj (dict_set ''error'' (JInt (status_code r)) d))
              else Inr (w1, JObj (dict_set ''mime_type''
                     (JStr (case map_of (headers r) ''Content-Type'' of
                              None \<Rightarrow> ''img/jpeg'' | Some t \<Rightarrow> t)) d))))
      | _ \<Rightarrow> Inl TypeError)"

text \<open>A list comprehension \<^verbatim>\<open>[f(img) for img in imgs]\<close> whose \<open>f\<close> acts on the world.\<close>

fun map_world ::
  "(world \<Rightarrow> json \<Rightarrow> error + (world \<times> json)) \<Rightarrow> world \<Rightarrow> json list \<Rightarrow> error + (world \<times> json list)" where
  "map_world f w [] = Inr (w, [])"
| "map_world f w (x # xs) =
     bind (f w x) (\<lambda>(w1, y).
     bind (map_world f w1 xs) (\<lambda>(w2, ys). Inr (w2, y # ys)))"

text \<open>
  \<^verbatim>\<open>Chooser.is_valid\<close> is \<^verbatim>\<open>'error' not in img\<close>: a key test on a dictionary, a
  membership test on a list, a substring test on a string, \<^verbatim>\<open>TypeError\<close> otherwise.
\<close>

fun is_valid :: "json \<Rightarrow> error + bool" where
  "is_valid (JObj d) = Inr (\<not> has_key ''error'' d)"
| "is_valid (JArr xs) = Inr (JStr ''error'' \<notin> set xs)"
| "is_valid (JStr s) = Inr (\<not> substring ''error'' s)"
| "is_valid _ = Inl TypeError"

text \<open>\<^verbatim>\<open>[img for img in filter(Chooser.is_valid, imgs)]\<close>\<close>

fun filter_valid :: "json list \<Rightarrow> error + json list" where
  "filter_valid [] = Inr []"
| "filter_valid (img # imgs) =
     bind (is_valid img) (\<lambda>ok.
     bind (filter_valid imgs) (\<lambda>rest. Inr (if ok then img # rest else rest)))"

text \<open>
  \<^verbatim>\<open>Chooser.valid_urls\<close>: \<^verbatim>\<open>[img['url'] for img in filter(Chooser.is_valid, imgs)]\<close>.
  The filter is lazy, so each record is tested and then subscripted before the next
  one is looked at.
\<close>

fun valid_urls :: "json list \<Rightarrow> error + json list" where
  "valid_urls [] = Inr []"
| "valid_urls (img # imgs) =
     bind (is_valid img) (\<lambda>ok.
       if ok then
         bind (py_getitem img ''url'') (\<lambda>u.
         bind (valid_urls imgs) (\<lambda>rest. Inr (u # rest)))
       else valid_urls imgs)"

definition with_valid_imgs :: "json \<Rightarrow> error + json" where
  "with_valid_imgs manifest =
     bind (py_getitem manifest ''img'') (\<lambda>v.
     bind (py_iter v) (\<lambda>imgs.
     bind (filter_valid imgs) (\<lambda>valid.
     py_setitem manifest ''img'' (JArr valid))))"

text \<open>
  \<^verbatim>\<open>update_manifest\<close> sets \<^verbatim>\<open>id\<close> to the fingerprint of the manifest as it is before
  the assignment and writes the manifest file. The model returns the manifest too,
  since the caller's object has changed.
\<close>

definition update_manifest :: "env \<Rightarrow> world \<Rightarrow> json \<Rightarrow> error + (world \<times> json)" where
  "update_manifest e w manifest =
     bind (py_setitem manifest ''id'' (JStr (sha1_dict e manifest))) (\<lambda>m.
     Inr (emit (WriteManifest m) (w\<lparr>manifest_file := Parsed m\<rparr>), m))"

text \<open>\<^verbatim>\<open>[url + '\n' for url in valid_urls]\<close>\<close>

fun add_newlines :: "json list \<Rightarrow> error + string list" where
  "add_newlines [] = Inr []"
| "add_newlines (u # us) =
     bind (py_concat u [CHR 0x0A]) (\<lambda>l.
     bind (add_newlines us) (\<lambda>ls. Inr (l # ls)))"

definition update_urls :: "world \<Rightarrow> json list \<Rightarrow> error + world" where
  "update_urls w valid =
     bind (add_newlines valid) (\<lambda>ls.
       let text = concat ls in Inr (emit (WriteUrls text) (w\<lparr>urls_file := Some text\<rparr>)))"

text \<open>
  \<^verbatim>\<open>u.readlines()\<close> on a file opened by \<^verbatim>\<open>codecs.open\<close> is \<^verbatim>\<open>str.splitlines\<close> with
  the line ends kept. A line ends at a line feed, at a carriage return (with the line
  feed that follows it, if any) and at the other line boundaries of \<^verbatim>\<open>str\<close>; of those
  the ones below U+0100 are the ones a \<^typ>\<open>char\<close> can hold.
\<close>

definition linebreak :: "char \<Rightarrow> bool" where
  "linebreak c = (c \<in> set [CHR 0x0A, CHR 0x0B, CHR 0x0C, CHR 0x0D, CHR 0x1C, CHR 0x1D, CHR 0x1E, CHR 0x85])"

fun splitlines_from :: "string \<Rightarrow> string \<Rightarrow> string list" where
  "splitlines_from cur [] = (if cur = [] then [] else [cur])"
| "splitlines_from cur [c] = [cur @ [c]]"
| "splitlines_from cur (c # d # cs) =
     (if c = CHR 0x0D \<and> d = CHR 0x0A then (cur @ [c, d]) # splitlines_from [] cs
      else if linebreak c then (cur @ [c]) # splitlines_from [] (d # cs)
      else splitlines_from (cur @ [c]) (d # cs))"

definition readlines :: "string \<Rightarrow> string list" where
  "readlines text = splitlines_from [] text"

text \<open>\<^verbatim>\<open>i.strip('\n')\<close> removes the line feeds at both ends.\<close>

definition strip_newlines :: "string \<Rightarrow> string" where
  "strip_newlines s =
     rev (dropWhile (\<lambda>c. c = CHR 0x0A) (rev (dropWhile (\<lambda>c. c = CHR 0x0A) s)))"

text \<open>\<^verbatim>\<open>set([i.strip('\n') for i in u.readlines()])\<close>, in the order the set is iterated.\<close>

definition load_urls :: "env \<Rightarrow> string \<Rightarrow> string list" where
  "load_urls e text = set_order e (map strip_newlines (readlines text))"

text \<open>The record \<^verbatim>\<open>update_cache\<close> builds for a file the cache directory already holds.\<close>

definition cached_record :: "config \<Rightarrow> env \<Rightarrow> string \<Rightarrow> json" where
  "cached_record cfg e fn =
     JObj [(''url'', JStr (cache_prefix cfg @ fn)),
           (''mime_type'', (case guess_type e fn of None \<Rightarrow> JNull | Some t \<Rightarrow> JStr t)),
           (''cached'', JBool True)]"

text \<open>\<^verbatim>\<open>[img['url'] for img in poss['img']]\<close>\<close>

fun urls_of :: "json list \<Rightarrow> error + json list" where
  "urls_of [] = Inr []"
| "urls_of (img # imgs) =
     bind (py_getitem img ''url'') (\<lambda>u.
     bind (urls_of imgs) (\<lambda>us. Inr (u # us)))"

text \<open>
  \<^verbatim>\<open>Chooser.update_cache\<close>. The fingerprint of the URL list file is taken first
  (\<^verbatim>\<open>IOError\<close> when the file cannot be read). The test
  \<^verbatim>\<open>'hash' in poss and poss['hash'] == urls_hash\<close> and the assignment
  \<^verbatim>\<open>poss['hash'] = urls_hash\<close> after it raise \<^verbatim>\<open>TypeError\<close> between them on every
  manifest that is not a dictionary. The manifest is mutated in place and nothing is
  returned; the model returns the manifest as the caller then sees it.
\<close>

definition update_cache :: "config \<Rightarrow> env \<Rightarrow> world \<Rightarrow> json \<Rightarrow> error + (world \<times> json)" where
  "update_cache cfg e w poss =
     (case urls_file w of
        None \<Rightarrow> Inl IOError
      | Some text \<Rightarrow>
          let urls_hash = sha1 e text in
          (case poss of
             JObj d \<Rightarrow>
               if map_of d ''hash'' = Some (JStr urls_hash) then Inr (w, poss)
               else
                 let d1 = dict_set ''hash'' (JStr urls_hash) d;
                     urls = load_urls e text;
                     imgs = map (\<lambda>url. JObj [(''url'', JStr url)]) urls;
                     cached_images = cache_listing w;
                     d2 = dict_set ''img'' (JArr (imgs @ map (cached_record cfg e) cached_images)) d1
                 in
                 bind (py_getitem (JObj d2) ''img'') (\<lambda>v.
                 bind (py_iter v) (\<lambda>all_imgs.
                 bind (map_world (fetch e) w all_imgs) (\<lambda>(w1, fetched).
                 bind (py_setitem (JObj d2) ''img'' (JArr fetched)) (\<lambda>poss3.
                 bind (with_valid_imgs poss3) (\<lambda>poss4.
                 bind (update_manifest e w1 poss4) (\<lambda>(w2, poss5).
                 bind (py_getitem poss5 ''img'') (\<lambda>v5.
                 bind (py_iter v5) (\<lambda>recs.
                 bind (urls_of recs) (\<lambda>us.
                 bind (update_urls w2 us) (\<lambda>w3. Inr (w3, poss5)))))))))))
           | _ \<Rightarrow> Inl TypeError))"

section \<open>Compression stage and response\<close>

text \<open>
  \<^verbatim>\<open>Chooser.download_uncached\<close>. The result is the world, the manifest object as it
  is after the call, and the value the call returns: a bare \<^verbatim>\<open>return\<close> returns
  \<^verbatim>\<open>None\<close>.
\<close>

definition download_uncached ::
  "config \<Rightarrow> env \<Rightarrow> world \<Rightarrow> json \<Rightarrow> error + (world \<times> json \<times> json)" where
  "download_uncached cfg e w manifest =
     (let key = api_key cfg in
      if key = None then Inr (w, manifest, JNull)
      else
        bind (py_getitem manifest ''img'') (\<lambda>v.
        bind (py_iter v) (\<lambda>imgs.
        bind (map_world (generate_cached_image (cache_prefix cfg) key e) w imgs) (\<lambda>(w1, cached).
        bind (py_setitem manifest ''img'' (JArr cached)) (\<lambda>m1.
        bind (update_manifest e w1 m1) (\<lambda>(w2, m2). Inr (w2, m2, m2)))))))"

text \<open>\<^verbatim>\<open>random.choice(seq)\<close>: \<^verbatim>\<open>IndexError\<close> on an empty sequence.\<close>

definition choice :: "env \<Rightarrow> json list \<Rightarrow> error + json" where
  "choice e xs = (if xs = [] then Inl IndexError else Inr (xs ! (random_index e mod length xs)))"

text \<open>\<^verbatim>\<open>random.choice([img for img in filter(Chooser.is_valid, p['img'])])\<close>\<close>

definition select :: "env \<Rightarrow> json \<Rightarrow> error + json" where
  "select e p =
     bind (py_getitem p ''img'') (\<lambda>v.
     bind (py_iter v) (\<lambda>imgs.
     bind (filter_valid imgs) (\<lambda>valid. choice e valid)))"

text \<open>
  \<^verbatim>\<open>Chooser.respond\<close>. Only the manifest load (\<open>load_manifest\<close>: the first \<^verbatim>\<open>try\<close>,
  with \<^verbatim>\<open>{}\<close> for any exception) and the selection stand in a \<^verbatim>\<open>try\<close>; \<^verbatim>\<open>p\<close> is
  rebound to what \<^verbatim>\<open>download_uncached\<close> returns.
\<close>

definition load_manifest :: "world \<Rightarrow> json" where
  "load_manifest w = (case get_json (manifest_file w) of Inl x \<Rightarrow> JObj [] | Inr j \<Rightarrow> j)"

definition respond :: "config \<Rightarrow> env \<Rightarrow> world \<Rightarrow> error + world" where
  "respond cfg e w =
     (let p = load_manifest w in
      bind (update_cache cfg e w p) (\<lambda>(w1, p1).
      bind (download_uncached cfg e w1 p1) (\<lambda>(w2, p2, ret).
        let p = ret in
        (case select e p of
           Inr img \<Rightarrow> Inr (give_response img ''success'' w2)
         | Inl x \<Rightarrow> Inr (give_response JNull ''failure'' w2)))))"

section \<open>A concrete run\<close>

text \<open>
  One URL, \<^verbatim>\<open>http://a/x.jpg\<close>, that the network serves, and one,
  \<^verbatim>\<open>http://a/gone.jpg\<close>, that it answers with 404; a compression service that accepts
  the first and offers the result at \<^verbatim>\<open>https://api.tinify.com/output/k3x9\<close>.
  The fingerprint of a file stands for the file itself and every manifest gets the
  same \<^verbatim>\<open>id\<close>: the digests play no part in what the runs below show.
\<close>

definition jpeg_reply :: response where
  "jpeg_reply =
     \<lparr>status_code = 200, headers = [(''Content-Type'', ''image/jpeg'')],
      content = ''JPEG'', content_json = None\<rparr>"

definition png_reply :: response where
  "png_reply =
     \<lparr>status_code = 200, headers = [(''Content-Type'', ''image/png'')],
      content = ''PNG'', content_json = None\<rparr>"

definition shrink_reply :: response where
  "shrink_reply =
     \<lparr>status_code = 201, headers = [(''Date'', ''Wed, 04 Nov 2026 10:00:00 GMT'')],
      content = [],
      content_json = Some (JObj [(''output'',
        JObj [(''url'', JStr ''https://api.tinify.com/output/k3x9''),
              (''type'', JStr ''image/png'')])])\<rparr>"

definition refused_reply :: response where
  "refused_reply =
     \<lparr>status_code = 401, headers = [(''Date'', ''Wed, 04 Nov 2026 10:00:00 GMT'')],
      content = [], content_json = None\<rparr>"

definition not_found_reply :: response where
  "not_found_reply =
     \<lparr>status_code = 404, headers = [(''Content-Type'', ''text/html'')],
      content = [], content_json = None\<rparr>"

definition example_env :: env where
  "example_env =
     \<lparr>http_get = (\<lambda>u. if u = JStr ''http://a/x.jpg'' then Inr jpeg_reply
                      else if u = JStr ''https://api.tinify.com/output/k3x9'' then Inr png_reply
                      else if u = JStr ''http://a/gone.jpg'' then Inr not_found_reply
                      else Inl RequestException),
      http_post = (\<lambda>key u. if key = Some ''secret'' then Inr shrink_reply else Inr refused_reply),
      sha1 = (\<lambda>bytes. bytes),
      sha1_dict = (\<lambda>j. ''0000''),
      guess_type = (\<lambda>fn. None),
      guess_extension = (\<lambda>t. if t = ''image/png'' then Some ''.png'' else None),
      set_order = remdups,
      random_index = 0\<rparr>"

definition example_world :: world where
  "example_world =
     \<lparr>urls_file = Some (''http://a/x.jpg'' @ [CHR 0x0A]), manifest_file = Missing,
      cache_listing = [], cache_dir = False, cache_files = [], events = [], printed = []\<rparr>"

definition no_key :: config where
  "no_key = \<lparr>cache_prefix = ''/photos/'', api_key = None\<rparr>"

definition with_key :: config where
  "with_key = \<lparr>cache_prefix = ''/photos/'', api_key = Some ''secret''\<rparr>"

definition pending_record :: dict where
  "pending_record = [(''url'', JStr ''http://a/x.jpg'')]"

definition cached_example :: dict where
  "cached_example = [(''url'', JStr ''/photos/cache/img.png''), (''cached'', JBool True)]"

definition errored_record :: dict where
  "errored_record = [(''url'', JStr ''http://a/x.jpg''), (''error'', JInt 404)]"

definition example_records :: "dict list" where
  "example_records =
     [pending_record, [(''url'', JStr ''http://a/y.jpg''), (''error'', JInt 404)]]"

text \<open>
  The example world after a rebuild (one record, validated, not cached), and after a
  rebuild followed by a compression that succeeded.
\<close>

definition rebuilt_manifest :: json where
  "rebuilt_manifest =
     JObj [(''hash'', JStr (''http://a/x.jpg'' @ [CHR 0x0A])),
           (''img'', JArr [JObj [(''url'', JStr ''http://a/x.jpg''),
                                 (''mime_type'', JStr ''image/jpeg'')]]),
           (''id'', JStr ''0000'')]"

definition rebuilt_world :: world where
  "rebuilt_world =
     \<lparr>urls_file = Some (''http://a/x.jpg'' @ [CHR 0x0A]),
      manifest_file = Parsed rebuilt_manifest,
      cache_listing = [], cache_dir = False, cache_files = [],
      events = [NetGet (JStr ''http://a/x.jpg''), WriteManifest rebuilt_manifest,
                WriteUrls (''http://a/x.jpg'' @ [CHR 0x0A])],
      printed = []\<rparr>"

definition compressed_record :: json where
  "compressed_record =
     JObj [(''url'', JStr ''/photos/cache/k3x9.png''),
           (''mime_type'', JStr ''image/jpeg''),
           (''original_url'', JStr ''http://a/x.jpg''),
           (''last_cached'', JStr ''Wed, 04 Nov 2026 10:00:00 GMT''),
           (''cached'', JBool True)]"

definition compressed_manifest :: json where
  "compressed_manifest =
     JObj [(''hash'', JStr (''http://a/x.jpg'' @ [CHR 0x0A])),
           (''img'', JArr [compressed_record]),
           (''id'', JStr ''0000'')]"

definition compressed_world :: world where
  "compressed_world =
     \<lparr>urls_file = Some (''http://a/x.jpg'' @ [CHR 0x0A]),
      manifest_file = Parsed compressed_manifest,
      cache_listing = [], cache_dir = True,
      cache_files = [(''cache/k3x9.png'', ''PNG'')],
      events = [NetGet (JStr ''http://a/x.jpg''), WriteManifest rebuilt_manifest,
                WriteUrls (''http://a/x.jpg'' @ [CHR 0x0A]),
                NetPost (JStr ''http://a/x.jpg''),
                NetGet (JStr ''https://api.tinify.com/output/k3x9''),
                MakeDirs ''cache'', WriteFile ''cache/k3x9.png'' ''PNG'',
                WriteManifest compressed_manifest],
      printed = [(''success'', compressed_record)]\<rparr>"

section \<open>Notions of the specification\<close>

text \<open>
  A record as \<^verbatim>\<open>update_cache\<close> builds it: a dictionary whose \<^verbatim>\<open>url\<close> is a string;
  \<open>url_string\<close> reads that string.
\<close>

definition good_record :: "json \<Rightarrow> bool" where
  "good_record img =
     (case img of
        JObj d \<Rightarrow> (case map_of d ''url'' of Some (JStr s) \<Rightarrow> True | _ \<Rightarrow> False)
      | _ \<Rightarrow> False)"

definition url_string :: "json \<Rightarrow> string" where
  "url_string img =
     (case img of
        JObj d \<Rightarrow> (case map_of d ''url'' of Some (JStr s) \<Rightarrow> s | _ \<Rightarrow> [])
      | _ \<Rightarrow> [])"

text \<open>The records \<^verbatim>\<open>update_cache\<close> starts from: one per URL read, one per cached file.\<close>

definition initial_records :: "config \<Rightarrow> env \<Rightarrow> world \<Rightarrow> string \<Rightarrow> json list" where
  "initial_records cfg e w text =
     map (\<lambda>url. JObj [(''url'', JStr url)]) (load_urls e text) @
     map (cached_record cfg e) (cache_listing w)"

text \<open>
  The manifest needs no reconciliation: its \<^verbatim>\<open>hash\<close> is the fingerprint of the source
  URL list file as it is now.
\<close>

definition up_to_date :: "env \<Rightarrow> world \<Rightarrow> json \<Rightarrow> bool" where
  "up_to_date e w p =
     (case urls_file w of
        None \<Rightarrow> False
      | Some text \<Rightarrow> py_getitem p ''hash'' = Inr (JStr (sha1 e text)))"

text \<open>
  The two stores agree: the source URL list file holds exactly the \<^verbatim>\<open>url\<close> values of
  the valid records of the manifest file, one per line, each line ended by a line feed.
\<close>

definition persisted_valid_urls :: "world \<Rightarrow> error + json list" where
  "persisted_valid_urls w =
     bind (get_json (manifest_file w)) (\<lambda>m.
     bind (py_getitem m ''img'') (\<lambda>v.
     bind (py_iter v) valid_urls))"

definition stores_consistent :: "world \<Rightarrow> bool" where
  "stores_consistent w =
     (case urls_file w of
        None \<Rightarrow> False
      | Some text \<Rightarrow>
          (case bind (persisted_valid_urls w) add_newlines of
             Inl x \<Rightarrow> False
           | Inr ls \<Rightarrow> text = concat ls))"

text \<open>
  What a rebuild by \<^verbatim>\<open>update_cache\<close> leaves behind, given the records as they come
  back from \<^verbatim>\<open>fetch\<close>: the manifest (\<^verbatim>\<open>hash\<close>, the valid records as \<^verbatim>\<open>img\<close>, then
  \<^verbatim>\<open>id\<close>) and the text of the URL list file.
\<close>

definition rebuilt :: "env \<Rightarrow> string \<Rightarrow> dict \<Rightarrow> json list \<Rightarrow> json" where
  "rebuilt e text d fetched =
     (let d4 = dict_set ''img'' (JArr (filter (\<lambda>img. is_valid img = Inr True) fetched))
                 (dict_set ''hash'' (JStr (sha1 e text)) d)
      in JObj (dict_set ''id'' (JStr (sha1_dict e (JObj d4))) d4))"

definition rewritten :: "json list \<Rightarrow> string" where
  "rewritten fetched =
     concat (map (\<lambda>img. url_string img @ [CHR 0x0A]) (filter (\<lambda>img. is_valid img = Inr True) fetched))"

text \<open>A source URL list of the given URLs: one per line, each line ended by a line feed.\<close>

definition url_lines :: "string list \<Rightarrow> string" where
  "url_lines xs = concat (map (\<lambda>u. u @ [CHR 0x0A]) xs)"

definition two_urls :: "string list" where
  "two_urls = [''http://a/x.jpg'', ''http://a/y.jpg'']"

text \<open>
  A record the compressor skips, and a manifest all of whose records it skips.
\<close>

definition is_cached :: "json \<Rightarrow> bool" where
  "is_cached img =
     (case img of JObj d \<Rightarrow> truthy (dict_get d ''cached'' (JBool False)) | _ \<Rightarrow> False)"

definition all_cached :: "json \<Rightarrow> bool" where
  "all_cached p =
     (case bind (py_getitem p ''img'') py_iter of
        Inl x \<Rightarrow> False
      | Inr imgs \<Rightarrow> list_all is_cached imgs)"

text \<open>
  Two more worlds. In the first the source list names both URLs of the example;
  \<open>first_world\<close> and \<open>first_manifest\<close> are what one rebuild makes of it. In the second
  the source list is empty and the cache directory holds one file, so that every
  record of the manifest is cached.
\<close>

definition two_line_world :: world where
  "two_line_world =
     example_world\<lparr>urls_file := Some (url_lines [''http://a/x.jpg'', ''http://a/gone.jpg''])\<rparr>"

definition first_manifest :: json where
  "first_manifest =
     JObj [(''hash'', JStr (url_lines [''http://a/x.jpg'', ''http://a/gone.jpg''])),
           (''img'', JArr [JObj [(''url'', JStr ''http://a/x.jpg''),
                                 (''mime_type'', JStr ''image/jpeg'')]]),
           (''id'', JStr ''0000'')]"

definition first_world :: world where
  "first_world =
     \<lparr>urls_file = Some (url_lines [''http://a/x.jpg'']),
      manifest_file = Parsed first_manifest,
      cache_listing = [], cache_dir = False, cache_files = [],
      events = [NetGet (JStr ''http://a/x.jpg''), NetGet (JStr ''http://a/gone.jpg''),
                WriteManifest first_manifest, WriteUrls (url_lines [''http://a/x.jpg''])],
      printed = []\<rparr>"

definition cached_only_world :: world where
  "cached_only_world =
     example_world\<lparr>urls_file := Some [], cache_listing := [''cache/k3x9.png'']\<rparr>"

definition cached_only_manifest :: json where
  "cached_only_manifest =
     JObj [(''hash'', JStr []),
           (''img'', JArr [JObj [(''url'', JStr ''/photos/cache/k3x9.png''),
                                 (''mime_type'', JNull), (''cached'', JBool True)]]),
           (''id'', JStr ''0000'')]"

definition cached_only_rebuilt :: world where
  "cached_only_rebuilt =
     \<lparr>urls_file = Some (url_lines [''/photos/cache/k3x9.png'']),
      manifest_file = Parsed cached_only_manifest,
      cache_listing = [''cache/k3x9.png''], cache_dir = False, cache_files = [],
      events = [WriteManifest cached_only_manifest,
                WriteUrls (url_lines [''/photos/cache/k3x9.png''])],
      printed = []\<rparr>"

definition cached_only_final :: world where
  "cached_only_final =
     cached_only_rebuilt
       \<lparr>events := events cached_only_rebuilt @ [WriteManifest cached_only_manifest],
        printed := [(''success'', JObj [(''url'', JStr ''/photos/cache/k3x9.png''),
                                       (''mime_type'', JNull), (''cached'', JBool True)])]\<rparr>"

section \<open>Dictionaries and the error monad\<close>

lemma map_of_dict_set:
  "map_of (dict_set k v d) k' = (if k' = k then Some v else map_of d k')"
  by (induction d) auto

lemma dict_set_twice: "dict_set k v (dict_set k v' d) = dict_set k v d"
  by (induction d) auto

lemma bind_Inr [simp]: "bind (Inr a) f = f a"
  by (simp add: bind_def)

lemma bind_Inl [simp]: "bind (Inl x) f = Inl x"
  by (simp add: bind_def)

lemma bind_eq_Inr: "bind m f = Inr y \<longleftrightarrow> (\<exists>a. m = Inr a \<and> f a = Inr y)"
  by (cases m) simp_all

section \<open>The compressor on a single record\<close>

text \<open>
  C7. A record whose \<^verbatim>\<open>cached\<close> field is true comes back from the compressor as it
  went in, and the world is the same afterwards: no request was sent, nothing was
  written.
\<close>

theorem cached_record_is_skipped:
  assumes "map_of d ''cached'' = Some (JBool True)"
  shows "generate_cached_image prefix auth e w (JObj d) = Inr (w, JObj d)"
  using assms by (simp add: generate_cached_image_def dict_get_def)

theorem cached_record_is_skipped_witness:
  "map_of cached_example ''cached'' = Some (JBool True) \<and>
   generate_cached_image ''/photos/'' (Some ''secret'') example_env example_world (JObj cached_example)
     = Inr (example_world, JObj cached_example)"
proof -
  have c: "map_of cached_example ''cached'' = Some (JBool True)"
    by (simp add: cached_example_def)
  show ?thesis
    using c cached_record_is_skipped [OF c] by simp
qed

text \<open>
  C10. When the compression service answers a record that is not cached with a status
  other than 201, the record that comes back carries the status as \<^verbatim>\<open>error\<close>, its
  URL as \<^verbatim>\<open>original_url\<close> and the reply's \<^verbatim>\<open>Date\<close> header as \<^verbatim>\<open>last_cached\<close>; every
  other field is as before.
\<close>

theorem errored_compression_sets_fields:
  assumes "\<not> truthy (dict_get d ''cached'' (JBool False))"
    and "map_of d ''url'' = Some u"
    and "http_post e auth u = Inr r"
    and "map_of (headers r) ''Date'' = Some date"
    and "status_code r \<noteq> 201"
  shows "\<exists>d'. generate_cached_image prefix auth e w (JObj d) = Inr (emit (NetPost u) w, JObj d')
           \<and> map_of d' ''error'' = Some (JInt (status_code r))
           \<and> map_of d' ''original_url'' = Some u
           \<and> map_of d' ''last_cached'' = Some (JStr date)
           \<and> (\<forall>k. k \<notin> {''error'', ''original_url'', ''last_cached''} \<longrightarrow> map_of d' k = map_of d k)"
  using assms
  by (simp add: generate_cached_image_def header_def map_of_dict_set Let_def)

theorem errored_compression_sets_fields_witness:
  "generate_cached_image ''/photos/'' None example_env example_world (JObj pending_record)
     = Inr (emit (NetPost (JStr ''http://a/x.jpg'')) example_world,
            JObj [(''url'', JStr ''http://a/x.jpg''),
                  (''original_url'', JStr ''http://a/x.jpg''),
                  (''last_cached'', JStr ''Wed, 04 Nov 2026 10:00:00 GMT''),
                  (''error'', JInt 401)])"
proof -
  have h1: "\<not> truthy (dict_get pending_record ''cached'' (JBool False))"
    by (simp add: pending_record_def dict_get_def)
  have h2: "map_of pending_record ''url'' = Some (JStr ''http://a/x.jpg'')"
    by (simp add: pending_record_def)
  have h3: "http_post example_env None (JStr ''http://a/x.jpg'') = Inr refused_reply"
    by (simp add: example_env_def)
  have h4: "map_of (headers refused_reply) ''Date'' = Some ''Wed, 04 Nov 2026 10:00:00 GMT''"
    by (simp add: refused_reply_def)
  have h5: "status_code refused_reply \<noteq> 201"
    by (simp add: refused_reply_def)
  from errored_compression_sets_fields [OF h1 h2 h3 h4 h5, of "''/photos/''" example_world]
  obtain d' where
    "generate_cached_image ''/photos/'' None example_env example_world (JObj pending_record)
       = Inr (emit (NetPost (JStr ''http://a/x.jpg'')) example_world, JObj d')"
    by blast
  moreover have
    "generate_cached_image ''/photos/'' None example_env example_world (JObj pending_record)
       = Inr (emit (NetPost (JStr ''http://a/x.jpg'')) example_world,
            JObj [(''url'', JStr ''http://a/x.jpg''),
                  (''original_url'', JStr ''http://a/x.jpg''),
                  (''last_cached'', JStr ''Wed, 04 Nov 2026 10:00:00 GMT''),
                  (''error'', JInt 401)])"
    by (simp add: generate_cached_image_def pending_record_def example_env_def refused_reply_def
        dict_get_def header_def Let_def)
  ultimately show ?thesis by simp
qed

section \<open>The compression stage without a credential\<close>

text \<open>
  C1. With no API key, \<^verbatim>\<open>download_uncached\<close> leaves the world and the manifest alone and
  returns \<^verbatim>\<open>None\<close>, which is not the manifest it was given.
\<close>

theorem download_uncached_without_key_returns_none:
  "download_uncached (cfg\<lparr>api_key := None\<rparr>) e w (JObj d) = Inr (w, JObj d, JNull) \<and> JNull \<noteq> JObj d"
  by (simp add: download_uncached_def)

section \<open>Validation of a single record\<close>

text \<open>
  C6, as the code has it. For a record that is not cached and has a \<^verbatim>\<open>url\<close>, when
  the retrieval returns a reply: with status 200 the record gets \<^verbatim>\<open>mime_type\<close> from
  the \<^verbatim>\<open>Content-Type\<close> header, \<^verbatim>\<open>img/jpeg\<close> when the header is absent, and every other
  field stays as it was, an \<^verbatim>\<open>error\<close> set earlier included; with any other status
  the record gets \<^verbatim>\<open>error\<close> set to the status and every other field stays as it was.
\<close>

theorem fetch_result:
  assumes "\<not> (case map_of d ''cached'' of None \<Rightarrow> False | Some c \<Rightarrow> truthy c)"
    and "map_of d ''url'' = Some u"
    and "http_get e u = Inr r"
  shows "\<exists>d'. fetch e w (JObj d) = Inr (emit (NetGet u) w, JObj d')
         \<and> (status_code r = 200 \<longrightarrow>
               map_of d' ''mime_type'' =
                 Some (JStr (case map_of (headers r) ''Content-Type'' of None \<Rightarrow> ''img/jpeg'' | Some t \<Rightarrow> t))
               \<and> (\<forall>k. k \<noteq> ''mime_type'' \<longrightarrow> map_of d' k = map_of d k))
         \<and> (status_code r \<noteq> 200 \<longrightarrow>
               map_of d' ''error'' = Some (JInt (status_code r))
               \<and> (\<forall>k. k \<noteq> ''error'' \<longrightarrow> map_of d' k = map_of d k))"
  using assms
  by (simp add: fetch_def map_of_dict_set Let_def)

theorem fetch_result_witness:
  "fetch example_env example_world (JObj errored_record)
     = Inr (emit (NetGet (JStr ''http://a/x.jpg'')) example_world,
            JObj [(''url'', JStr ''http://a/x.jpg''), (''error'', JInt 404), (''mime_type'', JStr ''image/jpeg'')])"
proof -
  have h1: "\<not> (case map_of errored_record ''cached'' of None \<Rightarrow> False | Some c \<Rightarrow> truthy c)"
    by (simp add: errored_record_def)
  have h2: "map_of errored_record ''url'' = Some (JStr ''http://a/x.jpg'')"
    by (simp add: errored_record_def)
  have h3: "http_get example_env (JStr ''http://a/x.jpg'') = Inr jpeg_reply"
    by (simp add: example_env_def)
  from fetch_result [OF h1 h2 h3, of example_world]
  obtain d' where "fetch example_env example_world (JObj errored_record)
      = Inr (emit (NetGet (JStr ''http://a/x.jpg'')) example_world, JObj d')"
    by blast
  moreover have "map_sum id snd (fetch example_env example_world (JObj errored_record))
     = Inr (JObj [(''url'', JStr ''http://a/x.jpg''), (''error'', JInt 404), (''mime_type'', JStr ''image/jpeg'')])"
    by (simp add: fetch_def errored_record_def example_env_def jpeg_reply_def Let_def)
  ultimately show ?thesis by simp
qed

text \<open>
  C6, as stated, fails: a record that carries \<^verbatim>\<open>error = 404\<close> and is fetched with
  status 200 still carries the error afterwards.
\<close>

theorem fetch_keeps_error_counterexample:
  "map_sum id snd (fetch example_env example_world (JObj errored_record))
     = Inr (JObj [(''url'', JStr ''http://a/x.jpg''), (''error'', JInt 404), (''mime_type'', JStr ''image/jpeg'')])"
  by (simp add: fetch_def errored_record_def example_env_def jpeg_reply_def Let_def)

section \<open>The validity filter\<close>

lemma valid_urls_map:
  "\<forall>d\<in>set ds. has_key ''url'' d \<Longrightarrow>
   valid_urls (map JObj ds) = Inr (map (\<lambda>d. the (map_of d ''url'')) (filter (\<lambda>d. \<not> has_key ''error'' d) ds))"
  by (induction ds) (auto simp: has_key_def)

text \<open>
  C8. For records that each carry a \<^verbatim>\<open>url\<close>, \<^verbatim>\<open>valid_urls\<close> returns a list in which a
  value occurs exactly when it is the \<^verbatim>\<open>url\<close> of a record without an \<^verbatim>\<open>error\<close> field;
  and where the \<^verbatim>\<open>url\<close> is a key of the list (no two records share one), the \<^verbatim>\<open>url\<close>
  of a record is in the output if and only if that record has no \<^verbatim>\<open>error\<close> field.
\<close>

theorem valid_urls_excludes_errors:
  assumes "\<forall>d\<in>set ds. has_key ''url'' d"
  shows "\<exists>us. valid_urls (map JObj ds) = Inr us
           \<and> (\<forall>u. u \<in> set us \<longleftrightarrow> (\<exists>d\<in>set ds. \<not> has_key ''error'' d \<and> map_of d ''url'' = Some u))
           \<and> (distinct (map (\<lambda>d. map_of d ''url'') ds) \<longrightarrow>
                (\<forall>d\<in>set ds. \<forall>u. map_of d ''url'' = Some u \<longrightarrow> (u \<in> set us \<longleftrightarrow> \<not> has_key ''error'' d)))"
proof -
  let ?us = "map (\<lambda>d. the (map_of d ''url'')) (filter (\<lambda>d. \<not> has_key ''error'' d) ds)"
  have run: "valid_urls (map JObj ds) = Inr ?us"
    using assms by (rule valid_urls_map)
  have mem: "u \<in> set ?us \<longleftrightarrow> (\<exists>d\<in>set ds. \<not> has_key ''error'' d \<and> map_of d ''url'' = Some u)" for u
    using assms by (auto simp: has_key_def image_iff)
  have uniq: "u \<in> set ?us \<longleftrightarrow> \<not> has_key ''error'' d"
    if dist: "distinct (map (\<lambda>d. map_of d ''url'') ds)" and d: "d \<in> set ds" and u: "map_of d ''url'' = Some u"
    for d u
  proof
    assume "u \<in> set ?us"
    then obtain d' where d': "d' \<in> set ds" "\<not> has_key ''error'' d'" "map_of d' ''url'' = Some u"
      using mem by blast
    from dist have "inj_on (\<lambda>d. map_of d ''url'') (set ds)"
      by (simp add: distinct_map)
    moreover have "map_of d' ''url'' = map_of d ''url''"
      using d' u by simp
    ultimately have "d' = d"
      using d d' by (meson inj_onD)
    with d' show "\<not> has_key ''error'' d" by simp
  next
    assume "\<not> has_key ''error'' d"
    with d u show "u \<in> set ?us" using mem by blast
  qed
  show ?thesis
    using run mem uniq by blast
qed

theorem valid_urls_excludes_errors_witness:
  "valid_urls (map JObj example_records) = Inr [JStr ''http://a/x.jpg'']"
proof -
  have h: "\<forall>d\<in>set example_records. has_key ''url'' d"
    by (simp add: example_records_def pending_record_def has_key_def)
  from valid_urls_excludes_errors [OF h]
  obtain us where "valid_urls (map JObj example_records) = Inr us"
    by blast
  moreover have "valid_urls (map JObj example_records) = Inr [JStr ''http://a/x.jpg'']"
    by (simp add: example_records_def pending_record_def has_key_def)
  ultimately show ?thesis by simp
qed

section \<open>The source URL list, read and written\<close>

lemma linebreak_LF [simp]: "linebreak (CHR 0x0A)"
  by (simp add: linebreak_def)

lemma linebreak_CR [simp]: "linebreak (CHR 0x0D)"
  by (simp add: linebreak_def)

lemma splitlines_from_LF:
  "splitlines_from cur (CHR 0x0A # rest) = (cur @ [CHR 0x0A]) # splitlines_from [] rest"
  by (cases rest) simp_all

lemma splitlines_from_plain:
  "\<not> linebreak c \<Longrightarrow> rest \<noteq> [] \<Longrightarrow>
   splitlines_from cur (c # rest) = splitlines_from (cur @ [c]) rest"
  by (cases rest) auto

lemma splitlines_from_line:
  "\<forall>c\<in>set u. \<not> linebreak c \<Longrightarrow>
   splitlines_from cur (u @ CHR 0x0A # rest) = (cur @ u @ [CHR 0x0A]) # splitlines_from [] rest"
proof (induction u arbitrary: cur)
  case Nil
  show ?case by (simp add: splitlines_from_LF)
next
  case (Cons a u)
  have "splitlines_from cur ((a # u) @ CHR 0x0A # rest)
          = splitlines_from (cur @ [a]) (u @ CHR 0x0A # rest)"
    using Cons.prems by (simp add: splitlines_from_plain)
  also have "\<dots> = ((cur @ [a]) @ u @ [CHR 0x0A]) # splitlines_from [] rest"
    using Cons.prems by (intro Cons.IH) simp
  finally show ?case by simp
qed

lemma readlines_url_lines:
  "\<forall>u\<in>set xs. \<forall>c\<in>set u. \<not> linebreak c \<Longrightarrow>
   readlines (url_lines xs) = map (\<lambda>u. u @ [CHR 0x0A]) xs"
  unfolding readlines_def url_lines_def
proof (induction xs)
  case Nil
  show ?case by simp
next
  case (Cons x xs)
  have "splitlines_from [] (x @ CHR 0x0A # concat (map (\<lambda>u. u @ [CHR 0x0A]) xs))
          = ([] @ x @ [CHR 0x0A]) # splitlines_from [] (concat (map (\<lambda>u. u @ [CHR 0x0A]) xs))"
    using Cons.prems by (intro splitlines_from_line) simp
  with Cons show ?case by simp
qed

lemma strip_newlines_line:
  assumes "\<forall>c\<in>set u. \<not> linebreak c"
  shows "strip_newlines (u @ [CHR 0x0A]) = u"
proof (cases u)
  case Nil
  then show ?thesis by (simp add: strip_newlines_def)
next
  case (Cons a v)
  from assms have nl: "CHR 0x0A \<notin> set u"
    by auto
  with Cons have "a \<noteq> CHR 0x0A" by auto
  then have "dropWhile (\<lambda>c. c = CHR 0x0A) (u @ [CHR 0x0A]) = u @ [CHR 0x0A]"
    using Cons by simp
  moreover have "dropWhile (\<lambda>c. c = CHR 0x0A) (rev u) = rev u"
  proof -
    from Cons have "rev u \<noteq> []" by simp
    moreover have "hd (rev u) \<noteq> CHR 0x0A"
      using nl Cons by (metis hd_rev last_in_set list.distinct(1))
    ultimately show ?thesis
      by (cases "rev u") simp_all
  qed
  ultimately show ?thesis
    by (simp add: strip_newlines_def)
qed

lemma load_url_lines:
  assumes "\<forall>u\<in>set xs. \<forall>c\<in>set u. \<not> linebreak c"
  shows "map strip_newlines (readlines (url_lines xs)) = xs"
proof -
  have "map strip_newlines (map (\<lambda>u. u @ [CHR 0x0A]) xs) = xs"
    using assms by (induction xs) (simp_all add: strip_newlines_line)
  then show ?thesis
    using assms by (simp add: readlines_url_lines)
qed

lemma add_newlines_strings:
  "add_newlines (map (\<lambda>x. JStr (f x)) xs) = Inr (map (\<lambda>x. f x @ [CHR 0x0A]) xs)"
  by (induction xs) simp_all

lemma update_urls_strings:
  "update_urls w (map JStr us) =
     Inr (emit (WriteUrls (url_lines us)) (w\<lparr>urls_file := Some (url_lines us)\<rparr>))"
  by (simp add: update_urls_def add_newlines_strings url_lines_def Let_def)

text \<open>
  C9. Take a source list file of pairwise different URLs, one per line, each line ended
  by a line feed, where no URL contains a line boundary. Reading it as
  \<^verbatim>\<open>update_cache\<close> does and writing what was read as \<^verbatim>\<open>update_urls\<close> does gives a
  file of the same form whose lines are, in some order and without repetition,
  exactly the URLs of the first file; reading that file again gives them back.
\<close>

theorem url_list_round_trip:
  assumes clean: "\<forall>u\<in>set xs. \<forall>c\<in>set u. \<not> linebreak c"
    and dedup: "distinct xs"
    and order: "\<forall>ys. set (set_order e ys) = set ys \<and> distinct (set_order e ys)"
  shows "\<exists>w1 ys.
           update_urls w (map JStr (load_urls e (url_lines xs))) = Inr w1
         \<and> urls_file w1 = Some (url_lines ys)
         \<and> map strip_newlines (readlines (url_lines ys)) = ys
         \<and> set ys = set xs \<and> distinct ys"
proof -
  let ?ys = "load_urls e (url_lines xs)"
  have ys: "?ys = set_order e xs"
    using clean by (simp add: load_urls_def load_url_lines)
  have set_ys: "set ?ys = set xs" and dist_ys: "distinct ?ys"
    using order by (simp_all add: ys)
  have clean_ys: "\<forall>u\<in>set ?ys. \<forall>c\<in>set u. \<not> linebreak c"
    using clean set_ys by simp
  have "update_urls w (map JStr ?ys)
          = Inr (emit (WriteUrls (url_lines ?ys)) (w\<lparr>urls_file := Some (url_lines ?ys)\<rparr>))"
    by (rule update_urls_strings)
  moreover have "urls_file (emit (WriteUrls (url_lines ?ys)) (w\<lparr>urls_file := Some (url_lines ?ys)\<rparr>))
          = Some (url_lines ?ys)"
    by (simp add: emit_def)
  moreover have "map strip_newlines (readlines (url_lines ?ys)) = ?ys"
    using clean_ys by (rule load_url_lines)
  ultimately show ?thesis
    using set_ys dist_ys by blast
qed

theorem url_list_round_trip_witness:
  "\<exists>w1 ys.
     update_urls example_world (map JStr (load_urls example_env (url_lines two_urls))) = Inr w1
   \<and> urls_file w1 = Some (url_lines ys)
   \<and> map strip_newlines (readlines (url_lines ys)) = ys
   \<and> set ys = set two_urls \<and> distinct ys"
proof -
  have h1: "\<forall>u\<in>set two_urls. \<forall>c\<in>set u. \<not> linebreak c"
    by (simp add: two_urls_def linebreak_def)
  have h2: "distinct two_urls"
    by (simp add: two_urls_def)
  have h3: "\<forall>ys. set (set_order example_env ys) = set ys \<and> distinct (set_order example_env ys)"
    by (simp add: example_env_def)
  show ?thesis
    by (rule url_list_round_trip [OF h1 h2 h3])
qed

section \<open>What a rebuild does\<close>

lemma good_record_iff:
  "good_record img \<longleftrightarrow> (\<exists>d s. img = JObj d \<and> map_of d ''url'' = Some (JStr s))"
proof (cases img)
  case (JObj d)
  show ?thesis
  proof (cases "map_of d ''url''")
    case None
    with JObj show ?thesis by (simp add: good_record_def)
  next
    case (Some v)
    with JObj show ?thesis by (cases v) (simp_all add: good_record_def)
  qed
qed (simp_all add: good_record_def)

lemma good_recordE:
  assumes "good_record img"
  obtains d s where "img = JObj d" "map_of d ''url'' = Some (JStr s)"
  using assms by (auto simp: good_record_iff)

lemma fetch_good:
  assumes "good_record img" and "fetch e w img = Inr (w', img')"
  shows "good_record img' \<and> url_string img' = url_string img"
proof -
  from assms(1) obtain d s where img: "img = JObj d" and url: "map_of d ''url'' = Some (JStr s)"
    by (rule good_recordE)
  show ?thesis
  proof (cases "case map_of d ''cached'' of None \<Rightarrow> False | Some c \<Rightarrow> truthy c")
    case True
    with assms(2) img have "img' = img"
      by (simp add: fetch_def)
    then show ?thesis using assms(1) by simp
  next
    case False
    from assms(2) img url False obtain r where r: "http_get e (JStr s) = Inr r"
      by (auto simp: fetch_def bind_eq_Inr)
    show ?thesis
    proof (cases "status_code r = 200")
      case True
      with assms(2) img url False r
      have "img' = JObj (dict_set ''mime_type'' (JStr (case map_of (headers r) ''Content-Type'' of
                            None \<Rightarrow> ''img/jpeg'' | Some t \<Rightarrow> t)) d)"
        by (simp add: fetch_def Let_def)
      then show ?thesis
        using url img by (simp add: good_record_def url_string_def map_of_dict_set)
    next
      case nok: False
      with assms(2) img url False r
      have "img' = JObj (dict_set ''error'' (JInt (status_code r)) d)"
        by (simp add: fetch_def Let_def)
      then show ?thesis
        using url img by (simp add: good_record_def url_string_def map_of_dict_set)
    qed
  qed
qed

lemma map_world_fetch_good:
  "list_all good_record xs \<Longrightarrow> map_world (fetch e) w xs = Inr (w', ys) \<Longrightarrow>
   list_all good_record ys \<and> map url_string ys = map url_string xs"
proof (induction xs arbitrary: w ys)
  case Nil
  then show ?case by simp
next
  case (Cons x xs)
  from Cons.prems(2) obtain w1 y zs where
    y: "fetch e w x = Inr (w1, y)" and zs: "map_world (fetch e) w1 xs = Inr (w', zs)" and ys: "ys = y # zs"
    by (auto simp: bind_eq_Inr)
  from Cons.prems(1) y have "good_record y \<and> url_string y = url_string x"
    by (intro fetch_good) simp_all
  moreover from Cons.prems(1) zs have "list_all good_record zs \<and> map url_string zs = map url_string xs"
    by (intro Cons.IH) simp_all
  ultimately show ?case using ys by simp
qed

lemma is_valid_good: "good_record img \<Longrightarrow> \<exists>b. is_valid img = Inr b"
  by (erule good_recordE) simp

lemma filter_valid_good:
  "list_all good_record xs \<Longrightarrow>
   filter_valid xs = Inr (filter (\<lambda>img. is_valid img = Inr True) xs)"
proof (induction xs)
  case Nil
  show ?case by simp
next
  case (Cons x xs)
  then obtain b where "is_valid x = Inr b"
    using is_valid_good by auto
  with Cons show ?case by simp
qed

lemma urls_of_good:
  "list_all good_record xs \<Longrightarrow> urls_of xs = Inr (map (\<lambda>img. JStr (url_string img)) xs)"
proof (induction xs)
  case Nil
  show ?case by simp
next
  case (Cons x xs)
  from Cons.prems have "good_record x" by simp
  then obtain d s where "x = JObj d" "map_of d ''url'' = Some (JStr s)"
    by (rule good_recordE)
  with Cons show ?case by (simp add: url_string_def)
qed

lemma valid_urls_good:
  "list_all good_record xs \<Longrightarrow>
   valid_urls xs = Inr (map (\<lambda>img. JStr (url_string img)) (filter (\<lambda>img. is_valid img = Inr True) xs))"
proof (induction xs)
  case Nil
  show ?case by simp
next
  case (Cons x xs)
  from Cons.prems have "good_record x" by simp
  then obtain d s where "x = JObj d" "map_of d ''url'' = Some (JStr s)"
    by (rule good_recordE)
  with Cons show ?case by (simp add: url_string_def)
qed

lemma initial_records_good: "list_all good_record (initial_records cfg e w text)"
  by (auto simp: initial_records_def list_all_iff good_record_iff cached_record_def)

lemma update_cache_rebuild:
  assumes src: "urls_file w = Some text"
    and stale: "map_of d ''hash'' \<noteq> Some (JStr (sha1 e text))"
  shows "update_cache cfg e w (JObj d) =
           bind (map_world (fetch e) w (initial_records cfg e w text)) (\<lambda>(w1, fetched).
             Inr (emit (WriteUrls (rewritten fetched))
                    ((emit (WriteManifest (rebuilt e text d fetched))
                       (w1\<lparr>manifest_file := Parsed (rebuilt e text d fetched)\<rparr>))
                     \<lparr>urls_file := Some (rewritten fetched)\<rparr>),
                  rebuilt e text d fetched))"
proof (cases "map_world (fetch e) w (initial_records cfg e w text)")
  case (Inl x)
  then show ?thesis
    using src stale
    by (simp add: update_cache_def Let_def map_of_dict_set initial_records_def)
next
  case (Inr res)
  obtain w1 fetched where res: "res = (w1, fetched)"
    by (cases res)
  have good: "list_all good_record fetched"
    using map_world_fetch_good [OF initial_records_good] Inr res by blast
  then have goodv: "list_all good_record (filter (\<lambda>img. is_valid img = Inr True) fetched)"
    by (simp add: list_all_iff)
  show ?thesis
    using src stale Inr res
    by (simp add: update_cache_def Let_def map_of_dict_set initial_records_def [symmetric]
        with_valid_imgs_def filter_valid_good [OF good] update_manifest_def
        urls_of_good [OF goodv] update_urls_def add_newlines_strings rebuilt_def rewritten_def dict_set_twice)
qed


section \<open>The example, run\<close>

lemmas run_defs = respond_def load_manifest_def update_cache_def download_uncached_def
  load_urls_def readlines_def strip_newlines_def linebreak_def fetch_def with_valid_imgs_def
  update_manifest_def update_urls_def select_def choice_def give_response_def emit_def
  has_key_def example_env_def example_world_def no_key_def with_key_def jpeg_reply_def
  png_reply_def shrink_reply_def refused_reply_def Let_def
  rebuilt_world_def rebuilt_manifest_def

lemmas compress_defs = generate_cached_image_def dict_get_def header_def json_loads_def
  basename_def ensure_cache_dir_def write_cache_file_def path_join_def dict_pop_def
  compressed_world_def compressed_manifest_def compressed_record_def

lemma example_rebuild:
  "update_cache no_key example_env example_world (JObj []) = Inr (rebuilt_world, rebuilt_manifest)"
  by (simp add: run_defs)

lemma example_respond_no_key:
  "respond no_key example_env example_world
     = Inr (give_response JNull ''failure'' rebuilt_world)"
  by (simp add: run_defs)

section \<open>Reconciliation twice\<close>

lemmas more_defs = two_line_world_def first_manifest_def first_world_def url_lines_def
  not_found_reply_def cached_only_world_def cached_only_manifest_def cached_only_rebuilt_def
  cached_only_final_def cached_record_def

lemma update_cache_sets_hash:
  assumes "update_cache cfg e w p = Inr (w1, p1)" and "urls_file w = Some text"
  shows "py_getitem p1 ''hash'' = Inr (JStr (sha1 e text))"
proof -
  from assms obtain d where p: "p = JObj d"
    by (cases p) (simp_all add: update_cache_def)
  show ?thesis
  proof (cases "map_of d ''hash'' = Some (JStr (sha1 e text))")
    case True
    with assms p show ?thesis
      by (auto simp: update_cache_def)
  next
    case False
    from assms(1) obtain w0 fetched where "p1 = rebuilt e text d fetched"
      unfolding p update_cache_rebuild [OF assms(2) False]
      by (auto simp: bind_eq_Inr)
    then show ?thesis
      by (simp add: rebuilt_def Let_def map_of_dict_set)
  qed
qed

lemma fetch_world:
  assumes "fetch e w img = Inr (w', img')"
  shows "length (events w) \<le> length (events w')"
proof (cases img)
  case (JObj d)
  show ?thesis
  proof (cases "case map_of d ''cached'' of None \<Rightarrow> False | Some c \<Rightarrow> truthy c")
    case True
    with assms JObj show ?thesis by (simp add: fetch_def)
  next
    case False
    with assms JObj obtain u where "w' = emit (NetGet u) w"
      by (auto simp: fetch_def bind_eq_Inr Let_def split: if_splits)
    then show ?thesis by (simp add: emit_def)
  qed
qed (insert assms, simp_all add: fetch_def)

lemma map_world_fetch_events:
  "map_world (fetch e) w xs = Inr (w', ys) \<Longrightarrow> length (events w) \<le> length (events w')"
proof (induction xs arbitrary: w ys)
  case Nil
  then show ?case by simp
next
  case (Cons x xs)
  from Cons.prems obtain w1 y zs where
    y: "fetch e w x = Inr (w1, y)" and zs: "map_world (fetch e) w1 xs = Inr (w', zs)"
    by (auto simp: bind_eq_Inr)
  from y have "length (events w) \<le> length (events w1)" by (rule fetch_world)
  moreover from zs have "length (events w1) \<le> length (events w')" by (rule Cons.IH)
  ultimately show ?case by simp
qed

lemma update_cache_rebuild_grows:
  assumes src: "urls_file w = Some src_text"
    and stale: "map_of d ''hash'' \<noteq> Some (JStr (sha1 e src_text))"
  shows "update_cache cfg e w (JObj d) \<noteq> Inr (w, p')"
proof
  assume same: "update_cache cfg e w (JObj d) = Inr (w, p')"
  then obtain w0 fetched where
    fetched: "map_world (fetch e) w (initial_records cfg e w src_text) = Inr (w0, fetched)"
    and w: "w = emit (WriteUrls (rewritten fetched))
                    ((emit (WriteManifest (rebuilt e src_text d fetched))
                       (w0\<lparr>manifest_file := Parsed (rebuilt e src_text d fetched)\<rparr>))
                     \<lparr>urls_file := Some (rewritten fetched)\<rparr>)"
    unfolding update_cache_rebuild [OF src stale]
    by (auto simp: bind_eq_Inr)
  from w have "length (events w) = length (events w0) + 2"
    by (simp add: emit_def)
  moreover from fetched have "length (events w) \<le> length (events w0)"
    by (rule map_world_fetch_events)
  ultimately show False by simp
qed

text \<open>
  C3, as the code has it. After a call of \<^verbatim>\<open>update_cache\<close> that returned, a call on
  the manifest it left, in any world whose source URL list file has the fingerprint
  the file had when the first call began, returns at once: the world is the same
  afterwards (no request, no file write) and so is the manifest, \<^verbatim>\<open>id\<close> included. A
  second call made right after the first, in the world the first one left, leaves
  world and manifest as they were only if the file as the first call left it has the
  fingerprint it had before.
\<close>

theorem update_cache_idempotent:
  assumes first: "update_cache cfg e w p = Inr (w1, p1)"
  shows "(map_option (sha1 e) (urls_file w2) = map_option (sha1 e) (urls_file w)
            \<longrightarrow> update_cache cfg e w2 p1 = Inr (w2, p1))
       \<and> (update_cache cfg e w1 p1 = Inr (w1, p1)
            \<longrightarrow> map_option (sha1 e) (urls_file w1) = map_option (sha1 e) (urls_file w))"
proof -
  from first obtain src_text where src: "urls_file w = Some src_text"
    by (cases "urls_file w") (simp_all add: update_cache_def)
  from first src have "py_getitem p1 ''hash'' = Inr (JStr (sha1 e src_text))"
    by (rule update_cache_sets_hash)
  then obtain d1 where p1: "p1 = JObj d1"
    and h1: "map_of d1 ''hash'' = Some (JStr (sha1 e src_text))"
    by (cases p1) (auto split: option.splits)
  have fast: "update_cache cfg e w2 p1 = Inr (w2, p1)"
    if "map_option (sha1 e) (urls_file w2) = map_option (sha1 e) (urls_file w)"
  proof -
    from that src obtain t2 where "urls_file w2 = Some t2" "sha1 e t2 = sha1 e src_text"
      by (cases "urls_file w2") simp_all
    with p1 h1 show ?thesis
      by (simp add: update_cache_def)
  qed
  have slow: "map_option (sha1 e) (urls_file w1) = map_option (sha1 e) (urls_file w)"
    if again: "update_cache cfg e w1 p1 = Inr (w1, p1)"
  proof -
    from again obtain t1 where t1: "urls_file w1 = Some t1"
      by (cases "urls_file w1") (simp_all add: update_cache_def)
    have "map_of d1 ''hash'' = Some (JStr (sha1 e t1))"
      using update_cache_rebuild_grows [OF t1, of d1 e cfg p1] again p1 by blast
    with h1 have "sha1 e t1 = sha1 e src_text" by simp
    with t1 src show ?thesis by simp
  qed
  from fast slow show ?thesis by blast
qed

theorem update_cache_idempotent_witness:
  "update_cache no_key example_env rebuilt_world rebuilt_manifest
     = Inr (rebuilt_world, rebuilt_manifest)"
proof -
  have same: "map_option (sha1 example_env) (urls_file rebuilt_world)
                = map_option (sha1 example_env) (urls_file example_world)"
    by (simp add: rebuilt_world_def example_world_def)
  from update_cache_idempotent [OF example_rebuild, of rebuilt_world] same
  show ?thesis by blast
qed


text \<open>
  C3, as stated, fails: the source list names a URL that is served and one that is
  answered with 404. The first call drops the second URL from the file; the second
  call, made right after with nobody else touching the file, finds another fingerprint,
  fetches the first URL again, writes both files again and stores another \<^verbatim>\<open>hash\<close>.
\<close>

theorem update_cache_twice_counterexample:
  "update_cache no_key example_env two_line_world (JObj []) = Inr (first_world, first_manifest)
   \<and> update_cache no_key example_env first_world first_manifest
       = Inr (first_world
                \<lparr>manifest_file := Parsed rebuilt_manifest,
                 events := events first_world @
                   [NetGet (JStr ''http://a/x.jpg''), WriteManifest rebuilt_manifest,
                    WriteUrls (url_lines [''http://a/x.jpg''])]\<rparr>,
              rebuilt_manifest)
   \<and> rebuilt_manifest \<noteq> first_manifest"
  by (simp add: run_defs more_defs)

section \<open>The two stores after a cycle\<close>

lemma update_cache_consistent:
  assumes run: "update_cache cfg e w p = Inr (w1, p1)" and stale: "\<not> up_to_date e w p"
  shows "stores_consistent w1"
proof -
  from run obtain src_text where src: "urls_file w = Some src_text"
    by (cases "urls_file w") (simp_all add: update_cache_def)
  from run src obtain d where p: "p = JObj d"
    by (cases p) (simp_all add: update_cache_def)
  from stale src p have ne: "map_of d ''hash'' \<noteq> Some (JStr (sha1 e src_text))"
    by (auto simp: up_to_date_def split: option.splits)
  from run obtain w0 fetched where
    fetched: "map_world (fetch e) w (initial_records cfg e w src_text) = Inr (w0, fetched)"
    and w1: "w1 = emit (WriteUrls (rewritten fetched))
                    ((emit (WriteManifest (rebuilt e src_text d fetched))
                       (w0\<lparr>manifest_file := Parsed (rebuilt e src_text d fetched)\<rparr>))
                     \<lparr>urls_file := Some (rewritten fetched)\<rparr>)"
    unfolding p update_cache_rebuild [OF src ne]
    by (auto simp: bind_eq_Inr)
  have good: "list_all good_record fetched"
    using map_world_fetch_good [OF initial_records_good fetched] by blast
  let ?valid = "filter (\<lambda>img. is_valid img = Inr True) fetched"
  have goodv: "list_all good_record ?valid"
    using good by (simp add: list_all_iff)
  have "valid_urls ?valid = Inr (map (\<lambda>img. JStr (url_string img)) ?valid)"
    using valid_urls_good [OF goodv] by simp
  then have "persisted_valid_urls w1 = Inr (map (\<lambda>img. JStr (url_string img)) ?valid)"
    by (simp add: w1 persisted_valid_urls_def emit_def rebuilt_def Let_def map_of_dict_set)
  then show ?thesis
    by (simp add: stores_consistent_def w1 emit_def add_newlines_strings rewritten_def)
qed

lemma generate_cached_image_urls_file:
  assumes "generate_cached_image prefix auth e w img = Inr (w', img')"
  shows "urls_file w' = urls_file w"
proof (cases img)
  case (JObj d)
  show ?thesis
  proof (cases "truthy (dict_get d ''cached'' (JBool False))")
    case True
    with assms JObj show ?thesis by (simp add: generate_cached_image_def)
  next
    case False
    with assms JObj show ?thesis
      by (auto simp: generate_cached_image_def bind_eq_Inr Let_def emit_def
          ensure_cache_dir_def write_cache_file_def split: if_splits)
  qed
qed (insert assms, simp_all add: generate_cached_image_def)

lemma map_world_urls_file:
  assumes step: "\<And>w x w' y. f w x = Inr (w', y) \<Longrightarrow> urls_file w' = urls_file w"
  shows "map_world f w xs = Inr (w', ys) \<Longrightarrow> urls_file w' = urls_file w"
proof (induction xs arbitrary: w ys)
  case Nil
  then show ?case by simp
next
  case (Cons x xs)
  from Cons.prems obtain w1 y zs where
    y: "f w x = Inr (w1, y)" and zs: "map_world f w1 xs = Inr (w', zs)"
    by (auto simp: bind_eq_Inr)
  from zs have "urls_file w' = urls_file w1" by (rule Cons.IH)
  with step [OF y] show ?case by simp
qed

lemma download_uncached_urls_file:
  assumes "download_uncached cfg e w m = Inr (w', m', ret)"
  shows "urls_file w' = urls_file w"
proof (cases "api_key cfg")
  case None
  with assms show ?thesis by (simp add: download_uncached_def)
next
  case (Some k)
  with assms obtain imgs w1 cached m1 where
    loop: "map_world (generate_cached_image (cache_prefix cfg) (Some k) e) w imgs = Inr (w1, cached)"
    and um: "update_manifest e w1 m1 = Inr (w', m')"
    by (auto simp: download_uncached_def bind_eq_Inr)
  from loop have "urls_file w1 = urls_file w"
    by (rule map_world_urls_file [rotated]) (rule generate_cached_image_urls_file)
  moreover from um have "urls_file w' = urls_file w1"
    by (auto simp: update_manifest_def bind_eq_Inr emit_def)
  ultimately show ?thesis by simp
qed

lemma map_world_all_cached:
  "list_all is_cached imgs \<Longrightarrow>
   map_world (generate_cached_image prefix auth e) w imgs = Inr (w, imgs)"
proof (induction imgs)
  case Nil
  show ?case by simp
next
  case (Cons img imgs)
  from Cons.prems have "is_cached img" by simp
  then have "generate_cached_image prefix auth e w img = Inr (w, img)"
    by (cases img) (simp_all add: is_cached_def generate_cached_image_def)
  with Cons show ?case by simp
qed

lemma download_uncached_all_cached:
  assumes cached: "all_cached p1"
    and stored: "manifest_file w1 = Parsed p1"
    and run: "download_uncached cfg e w1 p1 = Inr (w2, p2, ret)"
  shows "persisted_valid_urls w2 = persisted_valid_urls w1"
proof (cases "api_key cfg")
  case None
  with run show ?thesis by (simp add: download_uncached_def)
next
  case (Some k)
  from cached obtain v imgs where v: "py_getitem p1 ''img'' = Inr v" and it: "py_iter v = Inr imgs"
    and allc: "list_all is_cached imgs"
    by (auto simp: all_cached_def bind_eq_Inr split: sum.splits)
  from v obtain d where p1: "p1 = JObj d"
    by (cases p1) simp_all
  let ?d1 = "dict_set ''img'' (JArr imgs) d"
  let ?m2 = "JObj (dict_set ''id'' (JStr (sha1_dict e (JObj ?d1))) ?d1)"
  from run Some v it p1 have w2: "w2 = emit (WriteManifest ?m2) (w1\<lparr>manifest_file := Parsed ?m2\<rparr>)"
    by (auto simp: download_uncached_def map_world_all_cached [OF allc] update_manifest_def)
  have "persisted_valid_urls w2 = valid_urls imgs"
    by (simp add: w2 persisted_valid_urls_def emit_def map_of_dict_set)
  moreover have "persisted_valid_urls w1 = valid_urls imgs"
    using stored v it by (simp add: persisted_valid_urls_def)
  ultimately show ?thesis by simp
qed

lemma update_cache_rebuild_manifest_file:
  assumes run: "update_cache cfg e w p = Inr (w1, p1)" and stale: "\<not> up_to_date e w p"
  shows "manifest_file w1 = Parsed p1"
proof -
  from run obtain src_text where src: "urls_file w = Some src_text"
    by (cases "urls_file w") (simp_all add: update_cache_def)
  from run src obtain d where p: "p = JObj d"
    by (cases p) (simp_all add: update_cache_def)
  from stale src p have ne: "map_of d ''hash'' \<noteq> Some (JStr (sha1 e src_text))"
    by (auto simp: up_to_date_def split: option.splits)
  from run show ?thesis
    unfolding p update_cache_rebuild [OF src ne]
    by (auto simp: bind_eq_Inr emit_def)
qed

lemma stores_consistent_cong:
  "urls_file w' = urls_file w \<Longrightarrow> persisted_valid_urls w' = persisted_valid_urls w \<Longrightarrow>
   stores_consistent w' = stores_consistent w"
  by (simp add: stores_consistent_def cong: option.case_cong)

lemma example_cached_only_rebuild:
  "update_cache with_key example_env cached_only_world (load_manifest cached_only_world)
     = Inr (cached_only_rebuilt, cached_only_manifest)"
  by (simp add: run_defs more_defs)

lemma example_cached_only_respond:
  "respond with_key example_env cached_only_world = Inr cached_only_final"
  by (simp add: run_defs more_defs generate_cached_image_def dict_get_def)

text \<open>
  C4, as the code has it. In every \<^verbatim>\<open>respond\<close> cycle that returns, \<^verbatim>\<open>update_cache\<close>
  has returned, and the source URL list file is at the end of the cycle what
  \<^verbatim>\<open>update_cache\<close> left. If \<^verbatim>\<open>update_cache\<close> found the manifest out of date and rebuilt
  it, the two stores agree when it is done, and they still agree at the end of the cycle
  if the compression stage has nothing to rewrite: no API key, or every record of the
  rebuilt manifest cached already.
\<close>

theorem stores_after_cycle:
  assumes run: "respond cfg e w = Inr w'"
  shows "\<exists>w1 p1. update_cache cfg e w (load_manifest w) = Inr (w1, p1)
           \<and> (\<not> up_to_date e w (load_manifest w) \<longrightarrow> stores_consistent w1)
           \<and> urls_file w' = urls_file w1
           \<and> (\<not> up_to_date e w (load_manifest w) \<and> (api_key cfg = None \<or> all_cached p1)
                \<longrightarrow> stores_consistent w')"
proof -
  from run obtain w1 p1 where
    uc: "update_cache cfg e w (load_manifest w) = Inr (w1, p1)"
    and rest: "bind (download_uncached cfg e w1 p1) (\<lambda>(w2, p2, ret).
        (case select e ret of
           Inr img \<Rightarrow> Inr (give_response img ''success'' w2)
         | Inl x \<Rightarrow> Inr (give_response JNull ''failure'' w2))) = Inr w'"
    by (auto simp: respond_def Let_def bind_eq_Inr)
  from rest obtain r where r: "download_uncached cfg e w1 p1 = Inr r"
    by (cases "download_uncached cfg e w1 p1") simp_all
  obtain w2 p2 ret where r3: "r = (w2, p2, ret)"
    by (cases r)
  from r r3 have dl: "download_uncached cfg e w1 p1 = Inr (w2, p2, ret)"
    by simp
  from rest dl have w': "w' = give_response JNull ''failure'' w2 \<or> (\<exists>img. w' = give_response img ''success'' w2)"
    by (cases "select e ret") auto
  from w' have files: "urls_file w' = urls_file w2" "persisted_valid_urls w' = persisted_valid_urls w2"
    by (auto simp: give_response_def persisted_valid_urls_def)
  have keep: "urls_file w2 = urls_file w1"
    using dl by (rule download_uncached_urls_file)
  have after_rebuild: "stores_consistent w1" if "\<not> up_to_date e w (load_manifest w)"
    using uc that by (rule update_cache_consistent)
  have at_end: "stores_consistent w'"
    if stale: "\<not> up_to_date e w (load_manifest w)" and same: "api_key cfg = None \<or> all_cached p1"
  proof -
    have "persisted_valid_urls w2 = persisted_valid_urls w1"
    proof (cases "api_key cfg")
      case None
      with dl show ?thesis by (simp add: download_uncached_def)
    next
      case (Some k)
      with same have "all_cached p1" by simp
      moreover have "manifest_file w1 = Parsed p1"
        using uc stale by (rule update_cache_rebuild_manifest_file)
      ultimately show ?thesis using dl by (rule download_uncached_all_cached)
    qed
    with files keep have "stores_consistent w' = stores_consistent w1"
      by (intro stores_consistent_cong) simp_all
    with after_rebuild [OF stale] show ?thesis by simp
  qed
  from uc after_rebuild files(1) keep at_end show ?thesis
    by auto
qed

theorem stores_after_cycle_witness:
  "stores_consistent (give_response JNull ''failure'' rebuilt_world)
   \<and> respond with_key example_env cached_only_world = Inr cached_only_final
   \<and> stores_consistent cached_only_final"
proof -
  have stale: "\<not> up_to_date example_env example_world (load_manifest example_world)"
    by (simp add: up_to_date_def load_manifest_def example_world_def)
  have nokey: "api_key no_key = None"
    by (simp add: no_key_def)
  from stores_after_cycle [OF example_respond_no_key] stale nokey
  have one: "stores_consistent (give_response JNull ''failure'' rebuilt_world)"
    by blast
  have stale2: "\<not> up_to_date example_env cached_only_world (load_manifest cached_only_world)"
    by (simp add: up_to_date_def load_manifest_def cached_only_world_def example_world_def)
  have allc: "all_cached cached_only_manifest"
    by (simp add: all_cached_def is_cached_def dict_get_def cached_only_manifest_def)
  from stores_after_cycle [OF example_cached_only_respond] obtain w1 p1 where
    uc: "update_cache with_key example_env cached_only_world (load_manifest cached_only_world) = Inr (w1, p1)"
    and fin: "\<not> up_to_date example_env cached_only_world (load_manifest cached_only_world)
              \<and> (api_key with_key = None \<or> all_cached p1) \<longrightarrow> stores_consistent cached_only_final"
    by blast
  from uc example_cached_only_rebuild have "p1 = cached_only_manifest"
    by simp
  with fin stale2 allc have two: "stores_consistent cached_only_final"
    by simp
  from one example_cached_only_respond two show ?thesis
    by simp
qed

text \<open>
  C4, as stated, fails: with an API key, the cycle on the example ends with a success
  response, the URL list file still holding \<^verbatim>\<open>http://a/x.jpg\<close> and the manifest's only
  record pointing at \<^verbatim>\<open>/photos/cache/k3x9.png\<close>.
\<close>

theorem compression_breaks_consistency_counterexample:
  "respond with_key example_env example_world = Inr compressed_world
   \<and> printed compressed_world = [(''success'', compressed_record)]
   \<and> urls_file compressed_world = Some (''http://a/x.jpg'' @ [CHR 0x0A])
   \<and> persisted_valid_urls compressed_world = Inr [JStr ''/photos/cache/k3x9.png'']
   \<and> \<not> stores_consistent compressed_world"
  by (simp add: run_defs compress_defs persisted_valid_urls_def stores_consistent_def)

section \<open>Which failures reach the caller\<close>

text \<open>
  C5, as the code has it. An exception leaves \<^verbatim>\<open>respond\<close> exactly when
  \<^verbatim>\<open>update_cache\<close> or \<^verbatim>\<open>download_uncached\<close> raises it. A manifest file that is missing
  or is not JSON is replaced by the empty manifest; a source URL list file that cannot
  be read makes \<^verbatim>\<open>respond\<close> raise \<^verbatim>\<open>IOError\<close>; and once both stages have returned,
  \<^verbatim>\<open>respond\<close> returns, having printed a success response with the record selected
  when the selection returns one, and the failure response when the selection raises.
\<close>

theorem respond_failures:
  "(respond cfg e w = Inl x \<longleftrightarrow>
      update_cache cfg e w (load_manifest w) = Inl x \<or>
      (\<exists>w1 p1. update_cache cfg e w (load_manifest w) = Inr (w1, p1)
          \<and> download_uncached cfg e w1 p1 = Inl x))
   \<and> (get_json (manifest_file w) = Inl y \<longrightarrow> load_manifest w = JObj [])
   \<and> (urls_file w = None \<longrightarrow> respond cfg e w = Inl IOError)
   \<and> (update_cache cfg e w (load_manifest w) = Inr (w1, p1)
        \<and> download_uncached cfg e w1 p1 = Inr (w2, p2, ret)
        \<and> select e ret = Inr img \<longrightarrow>
        respond cfg e w = Inr (give_response img ''success'' w2))
   \<and> (update_cache cfg e w (load_manifest w) = Inr (w1, p1)
        \<and> download_uncached cfg e w1 p1 = Inr (w2, p2, ret)
        \<and> select e ret = Inl z \<longrightarrow>
        respond cfg e w = Inr (give_response JNull ''failure'' w2))"
proof (intro conjI impI)
  show "respond cfg e w = Inl x \<longleftrightarrow>
      update_cache cfg e w (load_manifest w) = Inl x \<or>
      (\<exists>w1 p1. update_cache cfg e w (load_manifest w) = Inr (w1, p1)
          \<and> download_uncached cfg e w1 p1 = Inl x)"
  proof (cases "update_cache cfg e w (load_manifest w)")
    case (Inl a)
    then show ?thesis by (simp add: respond_def Let_def)
  next
    case (Inr r)
    obtain w1 p1 where r: "r = (w1, p1)" by (cases r)
    show ?thesis
    proof (cases "download_uncached cfg e w1 p1")
      case (Inl a)
      with Inr r show ?thesis by (simp add: respond_def Let_def)
    next
      case dl: (Inr r2)
      obtain w2 p2 ret where r2: "r2 = (w2, p2, ret)" by (cases r2)
      with Inr r dl show ?thesis
        by (simp add: respond_def Let_def split: sum.splits)
    qed
  qed
next
  assume "get_json (manifest_file w) = Inl y"
  then show "load_manifest w = JObj []"
    by (simp add: load_manifest_def)
next
  assume "urls_file w = None"
  then show "respond cfg e w = Inl IOError"
    by (simp add: respond_def Let_def update_cache_def)
next
  assume "update_cache cfg e w (load_manifest w) = Inr (w1, p1)
        \<and> download_uncached cfg e w1 p1 = Inr (w2, p2, ret)
        \<and> select e ret = Inr img"
  then show "respond cfg e w = Inr (give_response img ''success'' w2)"
    by (simp add: respond_def Let_def)
next
  assume "update_cache cfg e w (load_manifest w) = Inr (w1, p1)
        \<and> download_uncached cfg e w1 p1 = Inr (w2, p2, ret)
        \<and> select e ret = Inl z"
  then show "respond cfg e w = Inr (give_response JNull ''failure'' w2)"
    by (simp add: respond_def Let_def)
qed


theorem respond_failures_witness:
  "load_manifest example_world = JObj []
   \<and> respond no_key example_env (example_world\<lparr>urls_file := None\<rparr>) = Inl IOError
   \<and> respond no_key example_env example_world = Inr (give_response JNull ''failure'' rebuilt_world)
   \<and> respond with_key example_env example_world = Inr (give_response compressed_record ''success''
         (compressed_world\<lparr>printed := []\<rparr>))"
proof -
  have missing: "get_json (manifest_file example_world) = Inl IOError"
    by (simp add: example_world_def)
  have unreadable: "urls_file (example_world\<lparr>urls_file := None\<rparr>) = None"
    by simp
  have stages: "update_cache no_key example_env example_world (load_manifest example_world)
                  = Inr (rebuilt_world, rebuilt_manifest)
                \<and> download_uncached no_key example_env rebuilt_world rebuilt_manifest
                  = Inr (rebuilt_world, rebuilt_manifest, JNull)
                \<and> select example_env JNull = Inl TypeError"
    using example_rebuild
    by (simp add: load_manifest_def example_world_def download_uncached_def no_key_def select_def)
  have stages_key: "update_cache with_key example_env example_world (load_manifest example_world)
                  = Inr (rebuilt_world, rebuilt_manifest)
                \<and> download_uncached with_key example_env rebuilt_world rebuilt_manifest
                  = Inr (compressed_world\<lparr>printed := []\<rparr>, compressed_manifest, compressed_manifest)
                \<and> select example_env compressed_manifest = Inr compressed_record"
    by (simp add: run_defs compress_defs)
  note at_example = respond_failures [of no_key example_env example_world IOError IOError
      rebuilt_world rebuilt_manifest rebuilt_world rebuilt_manifest JNull JNull TypeError]
  note at_key = respond_failures [of with_key example_env example_world IOError IOError
      rebuilt_world rebuilt_manifest "compressed_world\<lparr>printed := []\<rparr>" compressed_manifest
      compressed_manifest compressed_record TypeError]
  from at_example missing have "load_manifest example_world = JObj []"
    by blast
  moreover
  from respond_failures [of no_key example_env "example_world\<lparr>urls_file := None\<rparr>"] unreadable
  have "respond no_key example_env (example_world\<lparr>urls_file := None\<rparr>) = Inl IOError"
    by blast
  moreover
  from at_example stages
  have "respond no_key example_env example_world = Inr (give_response JNull ''failure'' rebuilt_world)"
    by blast
  moreover
  from at_key stages_key
  have "respond with_key example_env example_world = Inr (give_response compressed_record ''success''
         (compressed_world\<lparr>printed := []\<rparr>))"
    by blast
  ultimately show ?thesis by simp
qed


text \<open>
  C5, as stated, fails: when the source URL list file cannot be read, \<^verbatim>\<open>respond\<close>
  raises \<^verbatim>\<open>IOError\<close> and prints no response.
\<close>

theorem unreadable_url_list_counterexample:
  "respond no_key example_env (example_world\<lparr>urls_file := None\<rparr>) = Inl IOError"
  by (simp add: respond_def load_manifest_def update_cache_def example_world_def)

section \<open>A cycle without a credential\<close>

text \<open>
  C2. One URL in the source list, served with status 200, no API key: the manifest
  file ends with the one valid record, not cached, and the response printed is
  \<^verbatim>\<open>{"status": "failure", "data": null}\<close>, because \<^verbatim>\<open>p\<close> is \<^verbatim>\<open>None\<close> at the selection.
\<close>

theorem respond_without_key_answers_failure:
  "respond no_key example_env example_world
     = Inr (rebuilt_world\<lparr>printed := [(''failure'', JNull)]\<rparr>)
   \<and> persisted_valid_urls rebuilt_world = Inr [JStr ''http://a/x.jpg'']
   \<and> download_uncached no_key example_env rebuilt_world rebuilt_manifest
     = Inr (rebuilt_world, rebuilt_manifest, JNull)
   \<and> select example_env JNull = Inl TypeError"
  by (simp add: run_defs persisted_valid_urls_def)

end
